theory Spec2Isabelle
  imports Main
begin

section \<open>The mineserv frontend (src/frontend/app.js)\<close>

text \<open>
  The single-page client keeps one global \<^verbatim>\<open>state\<close> object, one global socket
  variable \<^verbatim>\<open>ws\<close>, the browser's \<^verbatim>\<open>localStorage\<close>, the interval timers
  it has started and the DOM under \<^verbatim>\<open>#app\<close>. The model threads all of them through
  one record, \<open>world\<close>. An \<^verbatim>\<open>async\<close> function is split at its \<^verbatim>\<open>await\<close>:
  the part before it registers a pending call, the part after it (named \<open>..._resume\<close>)
  runs when the fetch settles, with the outcome of the fetch as an argument.
\<close>

subsection \<open>JavaScript values\<close>

text \<open>A value that may be \<^verbatim>\<open>null\<close>.\<close>

datatype 'a js = JNull | JVal 'a

text \<open>
  What the code throws or rejects with: \<^verbatim>\<open>new Error(msg)\<close>, the error of a
  \<^verbatim>\<open>fetch\<close> that never got a response (with the browser's message), the
  \<^verbatim>\<open>TypeError\<close> of a property access on \<^verbatim>\<open>null\<close> or \<^verbatim>\<open>undefined\<close>, and a
  promise rejected with a plain string.
\<close>

datatype exn = Error string | NetworkError string | NullDeref | RejectedWith string

text \<open>
  Truthiness of a string that may be \<^verbatim>\<open>null\<close>: \<^verbatim>\<open>null\<close> and the empty string
  are falsy.
\<close>

definition truthy :: "string option \<Rightarrow> bool" where
  "truthy v = (case v of None \<Rightarrow> False | Some s \<Rightarrow> s \<noteq> [])"

text \<open>
  Decimal text of a non-negative integer. The counts and ports of the payloads are such
  integers; string conversion prints a number that way as long as it is below \<open>2^53\<close>,
  and the model says nothing about larger ones.
\<close>

definition digit :: "nat \<Rightarrow> char" where
  "digit d = ''0123456789'' ! (d mod 10)"

fun string_of_nat :: "nat \<Rightarrow> string" where
  "string_of_nat n =
     (if n < 10 then [digit n] else string_of_nat (n div 10) @ [digit (n mod 10)])"

declare string_of_nat.simps [simp del]

subsection \<open>Payloads of the API\<close>

record server =
  server_id :: string
  name :: string
  state :: string
  server_type :: string
  minecraft_version :: string
  port :: nat

text \<open>
  The fleet statistics. \<open>total_cpu_percent\<close> is a floating-point number of which the
  code only ever takes \<^verbatim>\<open>toFixed(1)\<close>: the field carries that text, and is \<open>None\<close>
  when the payload has no such property.
\<close>

record stats =
  total_servers :: nat
  running_servers :: nat
  total_cpu_percent :: "string option"

subsection \<open>The fetch API\<close>

text \<open>
  A response: its status, its status line, and what \<^verbatim>\<open>response.text()\<close> and
  \<^verbatim>\<open>response.json()\<close> give when awaited (\<open>None\<close>: the promise rejects, for
  \<open>json_body\<close> because the body is not JSON).
\<close>

record 'a response =
  status :: nat
  statusText :: string
  text_body :: "string option"
  json_body :: "'a js option"

datatype 'a fetch_result = NetworkFailure string | Response "'a response"

text \<open>\<^verbatim>\<open>response.ok\<close>: the status is in the range 200 to 299.\<close>

definition ok :: "'a response \<Rightarrow> bool" where
  "ok r = (200 \<le> status r \<and> status r \<le> 299)"

subsection \<open>The DOM under \<^verbatim>\<open>#app\<close>\<close>

text \<open>
  The model keeps, for each element the code later looks up, the values written into it.
  The strings of a payload that a template interpolates are taken as text: a string that
  holds markup of its own is outside the model. Buttons are named by their
  \<^verbatim>\<open>onclick\<close> handler. The sidebar, the modal container, the transcript of the console
  and the lists inside the files, worlds, plugins and settings panes are not modelled.
\<close>

datatype action = StartAction | StopAction | RestartAction | DeleteAction

record header_view =
  title :: string
  badge_class :: string
  badge_text :: string
  info_text :: string
  button_group :: "action list"

text \<open>
  \<^verbatim>\<open>#server-header\<close> is empty after \<^verbatim>\<open>renderServerView\<close> and holds the header
  template once \<^verbatim>\<open>loadServerData\<close> has written it.
\<close>

datatype header = HeaderEmpty | HeaderMounted header_view

datatype tab_content =
    TabEmpty | ConsolePane | FilesPane | WorldsPane | PluginsPane | SettingsPane
  | ErrorPane exn

text \<open>
  The children of \<^verbatim>\<open>#servers-list\<close>. Every element an \<^verbatim>\<open>innerHTML\<close> assignment
  creates is a new node; a node is identified by a number taken from \<open>next_node\<close>.
\<close>

datatype row = LoadingRow | ServerRow server | NoServersRow

record dashboard_view =
  stat_total :: string
  stat_running :: string
  stat_cpu :: string
  servers_list :: "(nat \<times> row) list"

text \<open>
  What \<^verbatim>\<open>#app\<close> holds: nothing before the first render, then the login form, the
  dashboard, or the server view with its header and its tab content.
\<close>

datatype page =
    BlankPage
  | LoginPage
  | DashboardPage dashboard_view
  | ServerPage header tab_content

subsection \<open>Timers, sockets and pending calls\<close>

datatype poll_task = DashboardPoll | ServerPoll

record socket =
  sock_server :: string
  sock_live :: bool

datatype call =
    DashboardCall
  | ServerCall bool string
  | ActionCall action "string option"
  | LoginCall

record world =
  token :: "string option"
  currentView :: string
  currentTab :: string
  currentServer :: "string option"
  pollInterval :: "nat option"
  serverData :: "server js"
  storage :: "string option"
  timers :: "(nat \<times> poll_task) list"
  next_handle :: nat
  ws :: "nat option"
  sockets :: "socket list"
  page :: page
  next_node :: nat
  pending :: "call list"

text \<open>
  \<^verbatim>\<open>setInterval\<close> returns a new handle and keeps the timer live until
  \<^verbatim>\<open>clearInterval\<close> is called with that handle. Handles are positive, hence truthy.
\<close>

definition setInterval :: "poll_task \<Rightarrow> world \<Rightarrow> nat \<times> world" where
  "setInterval task w =
     (next_handle w,
      w\<lparr>timers := timers w @ [(next_handle w, task)], next_handle := Suc (next_handle w)\<rparr>)"

definition clearInterval :: "nat \<Rightarrow> world \<Rightarrow> world" where
  "clearInterval h w = w\<lparr>timers := filter (\<lambda>t. fst t \<noteq> h) (timers w)\<rparr>"

text \<open>
  \<^verbatim>\<open>ws.close()\<close> on the socket with index \<open>k\<close>, and \<^verbatim>\<open>new WebSocket(url)\<close>
  for the console of server \<open>sid\<close>; a socket is live from its creation until it is closed.
\<close>

definition close_socket :: "nat \<Rightarrow> world \<Rightarrow> world" where
  "close_socket k w =
     (if k < length (sockets w)
      then w\<lparr>sockets := (sockets w)[k := (sockets w ! k)\<lparr>sock_live := False\<rparr>]\<rparr>
      else w)"

definition new_socket :: "string \<Rightarrow> world \<Rightarrow> nat \<times> world" where
  "new_socket sid w =
     (length (sockets w),
      w\<lparr>sockets := sockets w @ [\<lparr>sock_server = sid, sock_live = True\<rparr>]\<rparr>)"

subsection \<open>The API client\<close>

text \<open>
  \<^verbatim>\<open>api.request\<close> up to its \<^verbatim>\<open>fetch\<close>: the headers sent, from
  \<^verbatim>\<open>options.headers\<close> and the token.
\<close>

definition request_headers :: "(string \<rightharpoonup> string) \<Rightarrow> world \<Rightarrow> (string \<rightharpoonup> string)" where
  "request_headers opts w =
     (let headers = [''Content-Type'' \<mapsto> ''application/json''] ++ opts
      in case token w of
           None \<Rightarrow> headers
         | Some t \<Rightarrow>
             if t \<noteq> [] then headers(''Authorization'' \<mapsto> ''Bearer '' @ t) else headers)"

text \<open>The headers \<^verbatim>\<open>api.uploadWorld\<close> sends; a \<^verbatim>\<open>null\<close> token prints as "null".\<close>

definition upload_headers :: "world \<Rightarrow> (string \<rightharpoonup> string)" where
  "upload_headers w =
     [''Authorization'' \<mapsto> ''Bearer '' @ (case token w of None \<Rightarrow> ''null'' | Some t \<Rightarrow> t)]"

subsection \<open>Rendering\<close>

text \<open>
  The synchronous part of \<^verbatim>\<open>loadDashboardData\<close> and of \<^verbatim>\<open>loadServerData\<close>:
  the requests are issued and the function waits. \<^verbatim>\<open>loadServerData\<close> returns at once
  when there is no current server; the endpoint holds the server id of that moment.
\<close>

definition loadDashboardData_start :: "world \<Rightarrow> world" where
  "loadDashboardData_start w = w\<lparr>pending := pending w @ [DashboardCall]\<rparr>"

definition loadServerData_start :: "bool \<Rightarrow> world \<Rightarrow> world" where
  "loadServerData_start fullRender w =
     (case currentServer w of
        None \<Rightarrow> w
      | Some sid \<Rightarrow>
          if sid = [] then w
          else w\<lparr>pending := pending w @ [ServerCall fullRender sid]\<rparr>)"

text \<open>\<^verbatim>\<open>renderDashboard\<close>: the counters show a dash, the list one "Loading" row.\<close>

definition renderDashboard :: "world \<Rightarrow> world" where
  "renderDashboard w =
     w\<lparr>page := DashboardPage
           \<lparr>stat_total = ''-'', stat_running = ''-'', stat_cpu = ''-%'',
            servers_list = [(next_node w, LoadingRow)]\<rparr>,
       next_node := Suc (next_node w)\<rparr>"

definition renderServerView :: "world \<Rightarrow> world" where
  "renderServerView w = w\<lparr>page := ServerPage HeaderEmpty TabEmpty\<rparr>"

text \<open>
  \<^verbatim>\<open>render\<close>: the login view without a token; otherwise the dashboard or the server
  view, the first load of its data, and a new interval stored in
  \<^verbatim>\<open>state.pollInterval\<close>.
\<close>

definition render :: "world \<Rightarrow> world" where
  "render w =
     (if \<not> truthy (token w) then w\<lparr>page := LoginPage\<rparr>
      else
        let w1 = (if currentView w = ''dashboard'' then renderDashboard w
                  else renderServerView w)
        in if currentView w1 = ''dashboard'' then
             (let w2 = loadDashboardData_start w1;
                  (h, w3) = setInterval DashboardPoll w2
              in w3\<lparr>pollInterval := Some h\<rparr>)
           else if truthy (currentServer w1) then
             (let w2 = loadServerData_start True w1;
                  (h, w3) = setInterval ServerPoll w2
              in w3\<lparr>pollInterval := Some h\<rparr>)
           else w1)"

text \<open>
  \<^verbatim>\<open>navigateTo(view, serverId = null)\<close>, \<^verbatim>\<open>setTab(tab)\<close> and \<^verbatim>\<open>logout()\<close>.
\<close>

definition navigateTo :: "string \<Rightarrow> string option \<Rightarrow> world \<Rightarrow> world" where
  "navigateTo view serverId w =
     (let w1 = w\<lparr>currentView := view\<rparr>;
          w2 = (if truthy serverId then w1\<lparr>currentServer := serverId\<rparr> else w1);
          w3 = (case pollInterval w2 of None \<Rightarrow> w2 | Some h \<Rightarrow> clearInterval h w2)
      in render (w3\<lparr>pollInterval := None\<rparr>))"

definition setTab :: "string \<Rightarrow> world \<Rightarrow> world" where
  "setTab tab w = render (w\<lparr>currentTab := tab\<rparr>)"

definition logout :: "world \<Rightarrow> world" where
  "logout w =
     (let w1 = w\<lparr>storage := None, token := None\<rparr>;
          w2 = (case pollInterval w1 of None \<Rightarrow> w1 | Some h \<Rightarrow> clearInterval h w1)
      in render w2)"

subsection \<open>Settling a request\<close>

text \<open>
  \<^verbatim>\<open>api.request\<close> from the moment its \<^verbatim>\<open>fetch\<close> settles: the new world and
  what the caller's \<^verbatim>\<open>await\<close> gets, \<open>Inl\<close> an exception or \<open>Inr\<close> the value.
\<close>

definition request_settle :: "'a fetch_result \<Rightarrow> world \<Rightarrow> world \<times> (exn + 'a js)" where
  "request_settle fr w =
     (case fr of
        NetworkFailure m \<Rightarrow> (w, Inl (NetworkError m))
      | Response r \<Rightarrow>
          if \<not> ok r then
            (let w1 = (if status r = 401
                       then render (w\<lparr>token := None, storage := None\<rparr>)
                       else w);
                 errorText = (case text_body r of None \<Rightarrow> statusText r | Some t \<Rightarrow> t)
             in (w1, Inl (Error (if errorText \<noteq> [] then errorText else statusText r))))
          else
            (w, Inr (if status r = 204 then JNull
                     else (case json_body r of None \<Rightarrow> JNull | Some v \<Rightarrow> v))))"

text \<open>\<^verbatim>\<open>api.uploadWorld\<close> from the moment its \<^verbatim>\<open>fetch\<close> settles.\<close>

definition upload_settle :: "'a fetch_result \<Rightarrow> world \<Rightarrow> world \<times> (exn + 'a js)" where
  "upload_settle fr w =
     (case fr of
        NetworkFailure m \<Rightarrow> (w, Inl (NetworkError m))
      | Response r \<Rightarrow>
          if \<not> ok r then (w, Inl (RejectedWith ''Upload failed''))
          else
            (w, Inr (if status r = 204 \<or> status r = 201 then JNull
                     else (case json_body r of None \<Rightarrow> JNull | Some v \<Rightarrow> v))))"

subsection \<open>The console socket\<close>

text \<open>\<^verbatim>\<open>setupConsole(id)\<close>: close the socket held in \<^verbatim>\<open>ws\<close>, then open a new one.\<close>

definition setupConsole :: "string \<Rightarrow> world \<Rightarrow> world" where
  "setupConsole sid w =
     (let w1 = (case ws w of None \<Rightarrow> w | Some k \<Rightarrow> close_socket k w);
          (k, w2) = new_socket sid w1
      in w2\<lparr>ws := Some k\<rparr>)"

subsection \<open>The server view\<close>

text \<open>
  The separator between the parts of the info line, byte for byte as the template has it
  (in UTF-8: U+201A, U+00C4, U+00A2).
\<close>

definition separator :: string where
  "separator = [CHR 0xE2, CHR 0x80, CHR 0x9A, CHR 0xC3, CHR 0x84, CHR 0xC2, CHR 0xA2]"

definition badge_class_of :: "server \<Rightarrow> string" where
  "badge_class_of s =
     ''badge '' @ (if state s = ''running'' then ''badge-success'' else ''badge-error'')"

definition info_line :: "server \<Rightarrow> string" where
  "info_line s =
     server_type s @ '' '' @ separator @ '' '' @ minecraft_version s @ '' '' @ separator
       @ '' Port '' @ string_of_nat (port s)"

definition buttons_of :: "server \<Rightarrow> action list" where
  "buttons_of s =
     [if state s = ''running'' then StopAction else StartAction, RestartAction, DeleteAction]"

text \<open>
  The three lookups inside the header, \<^verbatim>\<open>.badge\<close>, \<^verbatim>\<open>.flex.gap-1\<close> and
  \<^verbatim>\<open>.text-muted\<close>: each finds its element when the header template is mounted, and
  nothing in the empty header.
\<close>

definition query_badge :: "header \<Rightarrow> (string \<times> string) option" where
  "query_badge h =
     (case h of HeaderEmpty \<Rightarrow> None | HeaderMounted v \<Rightarrow> Some (badge_class v, badge_text v))"

definition query_button_group :: "header \<Rightarrow> action list option" where
  "query_button_group h =
     (case h of HeaderEmpty \<Rightarrow> None | HeaderMounted v \<Rightarrow> Some (button_group v))"

definition query_info :: "header \<Rightarrow> string option" where
  "query_info h = (case h of HeaderEmpty \<Rightarrow> None | HeaderMounted v \<Rightarrow> Some (info_text v))"

text \<open>Writing the class and the text of the badge, as both patches do.\<close>

definition set_badge :: "string \<Rightarrow> string \<Rightarrow> header \<Rightarrow> header" where
  "set_badge cls txt h =
     (case h of
        HeaderEmpty \<Rightarrow> HeaderEmpty
      | HeaderMounted v \<Rightarrow> HeaderMounted (v\<lparr>badge_class := cls, badge_text := txt\<rparr>))"

definition set_info :: "string \<Rightarrow> header \<Rightarrow> header" where
  "set_info txt h =
     (case h of
        HeaderEmpty \<Rightarrow> HeaderEmpty
      | HeaderMounted v \<Rightarrow> HeaderMounted (v\<lparr>info_text := txt\<rparr>))"

definition set_button_group :: "action list \<Rightarrow> header \<Rightarrow> header" where
  "set_button_group bs h =
     (case h of
        HeaderEmpty \<Rightarrow> HeaderEmpty
      | HeaderMounted v \<Rightarrow> HeaderMounted (v\<lparr>button_group := bs\<rparr>))"

text \<open>
  The body of \<^verbatim>\<open>if (header)\<close> in \<^verbatim>\<open>loadServerData\<close>: the three loci are patched
  when all of them are found, and the whole header is written otherwise.
\<close>

definition update_header :: "server \<Rightarrow> header \<Rightarrow> header" where
  "update_header s h =
     (if query_badge h \<noteq> None \<and> query_button_group h \<noteq> None \<and> query_info h \<noteq> None
      then set_button_group (buttons_of s)
             (set_info (info_line s) (set_badge (badge_class_of s) (state s) h))
      else HeaderMounted
             \<lparr>title = name s, badge_class = badge_class_of s, badge_text = state s,
              info_text = info_line s, button_group = buttons_of s\<rparr>)"

text \<open>
  The steps of \<^verbatim>\<open>loadServerData\<close> after its \<^verbatim>\<open>await\<close>. Each returns the world
  with the writes made so far and the exception thrown, if any. \<^verbatim>\<open>#server-header\<close>
  and \<^verbatim>\<open>#tab-content\<close> exist in the server view only; reading a property of a
  \<^verbatim>\<open>null\<close> server, or writing to a missing element, throws.
\<close>

definition show_header :: "server js \<Rightarrow> world \<Rightarrow> world \<times> exn option" where
  "show_header sv w =
     (case page w of
        ServerPage h t \<Rightarrow>
          (case sv of
             JNull \<Rightarrow> (w, Some NullDeref)
           | JVal s \<Rightarrow> (w\<lparr>page := ServerPage (update_header s h) t\<rparr>, None))
      | _ \<Rightarrow> (w, None))"

definition set_pane :: "tab_content \<Rightarrow> world \<Rightarrow> world \<times> exn option" where
  "set_pane p w =
     (case page w of
        ServerPage h t \<Rightarrow> (w\<lparr>page := ServerPage h p\<rparr>, None)
      | _ \<Rightarrow> (w, Some NullDeref))"

definition show_tab :: "server js \<Rightarrow> world \<Rightarrow> world \<times> exn option" where
  "show_tab sv w =
     (if currentTab w = ''console'' then
        (case set_pane ConsolePane w of
           (w1, Some e) \<Rightarrow> (w1, Some e)
         | (w1, None) \<Rightarrow>
             (case sv of
                JNull \<Rightarrow> (w1, Some NullDeref)
              | JVal s \<Rightarrow> (setupConsole (server_id s) w1, None)))
      else if currentTab w = ''files'' then set_pane FilesPane w
      else if currentTab w = ''worlds'' then set_pane WorldsPane w
      else if currentTab w = ''plugins'' then set_pane PluginsPane w
      else if currentTab w = ''settings'' then set_pane SettingsPane w
      else (w, None))"

text \<open>
  The \<^verbatim>\<open>catch\<close> of \<^verbatim>\<open>loadServerData\<close>: on a full render the error is written
  into \<^verbatim>\<open>#tab-content\<close>; when that element is missing the write throws and the
  promise of \<^verbatim>\<open>loadServerData\<close> rejects with nobody waiting for it.
\<close>

definition catch_load :: "bool \<Rightarrow> exn \<Rightarrow> world \<Rightarrow> world" where
  "catch_load fullRender e w = (if fullRender then fst (set_pane (ErrorPane e) w) else w)"

definition loadServerData_resume :: "bool \<Rightarrow> server fetch_result \<Rightarrow> world \<Rightarrow> world" where
  "loadServerData_resume fullRender fr w =
     (case request_settle fr w of
        (w1, Inl e) \<Rightarrow> catch_load fullRender e w1
      | (w1, Inr sv) \<Rightarrow>
          (case show_header sv (w1\<lparr>serverData := sv\<rparr>) of
             (w2, Some e) \<Rightarrow> catch_load fullRender e w2
           | (w2, None) \<Rightarrow>
               if fullRender then
                 (case show_tab sv w2 of
                    (w3, Some e) \<Rightarrow> catch_load fullRender e w3
                  | (w3, None) \<Rightarrow> w3)
               else w2))"

subsection \<open>The dashboard\<close>

text \<open>
  The rows written into \<^verbatim>\<open>#servers-list\<close>: one new node for each server, or the
  "No servers found" card when the joined markup is empty.
\<close>

definition new_rows :: "nat \<Rightarrow> server list \<Rightarrow> (nat \<times> row) list" where
  "new_rows n ss =
     (if ss = [] then [(n, NoServersRow)] else zip [n..<n + length ss] (map ServerRow ss))"

text \<open>
  The body of \<^verbatim>\<open>loadDashboardData\<close> after \<^verbatim>\<open>Promise.all\<close> has resolved. It
  returns when \<^verbatim>\<open>#stat-total\<close> is missing; an exception (a \<^verbatim>\<open>null\<close> payload, a
  CPU figure that is \<^verbatim>\<open>undefined\<close>) ends it where it is thrown and is swallowed by
  the empty \<^verbatim>\<open>catch\<close>.
\<close>

definition show_dashboard :: "server list js \<Rightarrow> stats js \<Rightarrow> world \<Rightarrow> world" where
  "show_dashboard servers sts w =
     (case page w of
        DashboardPage d \<Rightarrow>
          (case sts of
             JNull \<Rightarrow> w
           | JVal st \<Rightarrow>
               (let d1 = d\<lparr>stat_total := string_of_nat (total_servers st)\<rparr>;
                    d2 = d1\<lparr>stat_running := string_of_nat (running_servers st)\<rparr>
                in case total_cpu_percent st of
                     None \<Rightarrow> w\<lparr>page := DashboardPage d2\<rparr>
                   | Some c \<Rightarrow>
                       (let d3 = d2\<lparr>stat_cpu := c @ ''%''\<rparr>
                        in case servers of
                             JNull \<Rightarrow> w\<lparr>page := DashboardPage d3\<rparr>
                           | JVal ss \<Rightarrow>
                               (let rows = new_rows (next_node w) ss
                                in w\<lparr>page := DashboardPage (d3\<lparr>servers_list := rows\<rparr>),
                                     next_node := next_node w + length rows\<rparr>))))
      | _ \<Rightarrow> w)"

text \<open>
  Both requests of \<^verbatim>\<open>Promise.all\<close> settle through \<^verbatim>\<open>api.request\<close>, the list of
  servers first; when either fails the \<^verbatim>\<open>await\<close> throws and nothing is shown.
\<close>

definition loadDashboardData_resume ::
  "server list fetch_result \<Rightarrow> stats fetch_result \<Rightarrow> world \<Rightarrow> world" where
  "loadDashboardData_resume fr1 fr2 w =
     (case request_settle fr1 w of
        (w1, r1) \<Rightarrow>
          (case request_settle fr2 w1 of
             (w2, r2) \<Rightarrow>
               (case (r1, r2) of
                  (Inr servers, Inr sts) \<Rightarrow> show_dashboard servers sts w2
                | _ \<Rightarrow> w2)))"

subsection \<open>Handlers\<close>

text \<open>
  The optimistic patch of \<^verbatim>\<open>handleStart\<close> and \<^verbatim>\<open>handleStop\<close>: the badge found
  by \<^verbatim>\<open>document.querySelector('#server-header .badge')\<close>, if any, gets a new text
  and class.
\<close>

definition patch_badge :: "string \<Rightarrow> string \<Rightarrow> world \<Rightarrow> world" where
  "patch_badge txt cls w =
     (case page w of
        ServerPage h t \<Rightarrow>
          (if query_badge h \<noteq> None then w\<lparr>page := ServerPage (set_badge cls txt h) t\<rparr> else w)
      | _ \<Rightarrow> w)"

text \<open>
  A click on an action button issues the request for the current server (whose id prints
  as "null" when there is none).
\<close>

definition click :: "action \<Rightarrow> world \<Rightarrow> world" where
  "click a w = w\<lparr>pending := pending w @ [ActionCall a (currentServer w)]\<rparr>"

text \<open>
  The handlers after their \<^verbatim>\<open>await\<close>. A failure is shown by \<^verbatim>\<open>alert\<close>, which
  leaves the world as \<^verbatim>\<open>api.request\<close> left it. \<^verbatim>\<open>handleDeleteServer\<close> is the
  path taken when the user has confirmed.
\<close>

definition handleStart_resume :: "'a fetch_result \<Rightarrow> world \<Rightarrow> world" where
  "handleStart_resume fr w =
     (case request_settle fr w of
        (w1, Inl e) \<Rightarrow> w1
      | (w1, Inr v) \<Rightarrow>
          loadServerData_start False (patch_badge ''starting'' ''badge badge-success'' w1))"

definition handleStop_resume :: "'a fetch_result \<Rightarrow> world \<Rightarrow> world" where
  "handleStop_resume fr w =
     (case request_settle fr w of
        (w1, Inl e) \<Rightarrow> w1
      | (w1, Inr v) \<Rightarrow>
          loadServerData_start False (patch_badge ''stopping'' ''badge badge-error'' w1))"

definition handleRestart_resume :: "'a fetch_result \<Rightarrow> world \<Rightarrow> world" where
  "handleRestart_resume fr w =
     (case request_settle fr w of
        (w1, Inl e) \<Rightarrow> w1
      | (w1, Inr v) \<Rightarrow> loadServerData_start False w1)"

definition handleDeleteServer_resume :: "'a fetch_result \<Rightarrow> world \<Rightarrow> world" where
  "handleDeleteServer_resume fr w =
     (case request_settle fr w of
        (w1, Inl e) \<Rightarrow> w1
      | (w1, Inr v) \<Rightarrow> navigateTo ''dashboard'' None w1)"

text \<open>
  The login form exists in the login view only. After the \<^verbatim>\<open>await\<close> of its submit
  handler the token of the reply is stored and the page rendered; a failure, or a
  \<^verbatim>\<open>null\<close> reply, only shows the error line of the form.
\<close>

definition submit_login :: "world \<Rightarrow> world" where
  "submit_login w =
     (case page w of LoginPage \<Rightarrow> w\<lparr>pending := pending w @ [LoginCall]\<rparr> | _ \<Rightarrow> w)"

definition login_resume :: "string fetch_result \<Rightarrow> world \<Rightarrow> world" where
  "login_resume fr w =
     (case request_settle fr w of
        (w1, Inl e) \<Rightarrow> w1
      | (w1, Inr JNull) \<Rightarrow> w1
      | (w1, Inr (JVal tok)) \<Rightarrow> render (w1\<lparr>token := Some tok, storage := Some tok\<rparr>))"

subsection \<open>Events\<close>

text \<open>
  What can happen to the page: a call of one of the global functions, a click, a timer
  that fires, and a pending call whose requests settle. \<open>Settle k rep\<close> settles the
  \<open>k\<close>-th pending call with the reply \<open>rep\<close>.
\<close>

datatype reply =
    DashboardReply "server list fetch_result" "stats fetch_result"
  | ServerReply "server fetch_result"
  | ActionReply "unit fetch_result"
  | LoginReply "string fetch_result"

datatype event =
    NavigateTo string "string option"
  | SetTab string
  | Logout
  | Click action
  | SubmitLogin
  | Tick nat
  | Settle nat reply

fun resume :: "call \<Rightarrow> reply \<Rightarrow> world \<Rightarrow> world option" where
  "resume DashboardCall (DashboardReply fr1 fr2) w = Some (loadDashboardData_resume fr1 fr2 w)"
| "resume (ServerCall fullRender sid) (ServerReply fr) w =
     Some (loadServerData_resume fullRender fr w)"
| "resume (ActionCall StartAction sid) (ActionReply fr) w = Some (handleStart_resume fr w)"
| "resume (ActionCall StopAction sid) (ActionReply fr) w = Some (handleStop_resume fr w)"
| "resume (ActionCall RestartAction sid) (ActionReply fr) w = Some (handleRestart_resume fr w)"
| "resume (ActionCall DeleteAction sid) (ActionReply fr) w =
     Some (handleDeleteServer_resume fr w)"
| "resume LoginCall (LoginReply fr) w = Some (login_resume fr w)"
| "resume c rep w = None"

definition tick :: "nat \<Rightarrow> world \<Rightarrow> world" where
  "tick h w =
     (case map_of (timers w) h of
        None \<Rightarrow> w
      | Some DashboardPoll \<Rightarrow> loadDashboardData_start w
      | Some ServerPoll \<Rightarrow> loadServerData_start False w)"

definition settle :: "nat \<Rightarrow> reply \<Rightarrow> world \<Rightarrow> world" where
  "settle k rep w =
     (if k < length (pending w) then
        (case resume (pending w ! k) rep
                (w\<lparr>pending := take k (pending w) @ drop (Suc k) (pending w)\<rparr>) of
           None \<Rightarrow> w
         | Some w1 \<Rightarrow> w1)
      else w)"

fun step :: "event \<Rightarrow> world \<Rightarrow> world" where
  "step (NavigateTo view serverId) w = navigateTo view serverId w"
| "step (SetTab tab) w = setTab tab w"
| "step Logout w = logout w"
| "step (Click a) w = click a w"
| "step SubmitLogin w = submit_login w"
| "step (Tick h) w = tick h w"
| "step (Settle k rep) w = settle k rep w"

fun run :: "event list \<Rightarrow> world \<Rightarrow> world" where
  "run [] w = w"
| "run (e # es) w = run es (step e w)"

text \<open>
  The page as the script leaves it when it is loaded: the state object with the token
  read from \<^verbatim>\<open>localStorage\<close>, and the \<^verbatim>\<open>render()\<close> of its last line.
\<close>

definition initial :: "string option \<Rightarrow> world" where
  "initial stored =
     \<lparr>token = (if truthy stored then stored else None),
      currentView = ''dashboard'', currentTab = ''console'', currentServer = None,
      pollInterval = None, serverData = JNull, storage = stored,
      timers = [], next_handle = 1, ws = None, sockets = [],
      page = BlankPage, next_node = 0, pending = []\<rparr>"

definition boot :: "string option \<Rightarrow> world" where
  "boot stored = render (initial stored)"

subsection \<open>What the page shows\<close>

text \<open>The class and the text of the status badge on display, if there is one.\<close>

definition displayed_badge :: "world \<Rightarrow> (string \<times> string) option" where
  "displayed_badge w = (case page w of ServerPage h t \<Rightarrow> query_badge h | _ \<Rightarrow> None)"

text \<open>The children of \<^verbatim>\<open>#servers-list\<close> and the two fleet counters on display.\<close>

definition displayed_rows :: "world \<Rightarrow> (nat \<times> row) list" where
  "displayed_rows w = (case page w of DashboardPage d \<Rightarrow> servers_list d | _ \<Rightarrow> [])"

definition displayed_counters :: "world \<Rightarrow> (string \<times> string) option" where
  "displayed_counters w =
     (case page w of DashboardPage d \<Rightarrow> Some (stat_total d, stat_running d) | _ \<Rightarrow> None)"

subsection \<open>Invariants\<close>

text \<open>
  Sockets: either none was ever opened and \<^verbatim>\<open>ws\<close> is \<^verbatim>\<open>null\<close>, or \<^verbatim>\<open>ws\<close>
  holds the socket opened last and every earlier one has been closed.
\<close>

definition socket_inv :: "world \<Rightarrow> bool" where
  "socket_inv w =
     (case ws w of
        None \<Rightarrow> sockets w = []
      | Some k \<Rightarrow>
          Suc k = length (sockets w) \<and> filter sock_live (butlast (sockets w)) = [])"

text \<open>Nodes: the rows on display were numbered before \<open>next_node\<close>.\<close>

definition node_inv :: "world \<Rightarrow> bool" where
  "node_inv w = (filter (\<lambda>r. next_node w \<le> fst r) (displayed_rows w) = [])"

subsection \<open>Scenarios\<close>

text \<open>
  The data of the scenarios the properties are tried on: a server "s1" in a given run
  state, a JSON reply, an empty reply, and the page after a stored token "abc", a click on
  the row of "s1" and the arrival of its first snapshot, with the console tab open.
\<close>

definition alpha :: "string \<Rightarrow> server" where
  "alpha st =
     \<lparr>server_id = ''s1'', name = ''Alpha'', state = st, server_type = ''paper'',
      minecraft_version = ''1.20.4'', port = 25565\<rparr>"

definition ok_json :: "'a \<Rightarrow> 'a response" where
  "ok_json v = \<lparr>status = 200, statusText = ''OK'', text_body = None, json_body = Some (JVal v)\<rparr>"

definition no_content :: "'a response" where
  "no_content =
     \<lparr>status = 204, statusText = ''No Content'', text_body = Some [], json_body = None\<rparr>"






definition console_world :: world where
  "console_world =
     run [NavigateTo ''server'' (Some ''s1''),
          Settle 1 (ServerReply (Response (ok_json (alpha ''running''))))]
       (boot (Some ''abc''))"

section \<open>Properties\<close>

subsection \<open>Facts about rendering and navigation\<close>

lemma render_no_token: "\<not> truthy (token w) \<Longrightarrow> render w = w\<lparr>page := LoginPage\<rparr>"
  by (simp add: render_def)

lemma render_token: "token (render w) = token w"
  by (simp add: render_def renderDashboard_def renderServerView_def loadDashboardData_start_def
        loadServerData_start_def setInterval_def Let_def split: option.splits)

lemma render_currentServer: "currentServer (render w) = currentServer w"
  by (simp add: render_def renderDashboard_def renderServerView_def loadDashboardData_start_def
        loadServerData_start_def setInterval_def Let_def split: option.splits)

lemma render_pending_dashboard:
  "truthy (token w) \<Longrightarrow> currentView w = ''dashboard'' \<Longrightarrow>
     pending (render w) = pending w @ [DashboardCall]"
  by (simp add: render_def renderDashboard_def loadDashboardData_start_def setInterval_def)

lemma render_pending_server:
  "truthy (token w) \<Longrightarrow> currentView w = ''server'' \<Longrightarrow> currentServer w = Some sid \<Longrightarrow>
     sid \<noteq> [] \<Longrightarrow> pending (render w) = pending w @ [ServerCall True sid]"
  by (simp add: render_def renderServerView_def loadServerData_start_def setInterval_def
        truthy_def)

lemma boot_token: "token (boot stored) = (if truthy stored then stored else None)"
  by (simp add: boot_def render_token initial_def)

lemma navigateTo_currentServer:
  "currentServer (navigateTo view serverId w) = (if truthy serverId then serverId else currentServer w)"
  by (simp add: navigateTo_def render_currentServer clearInterval_def Let_def split: option.splits)

lemma navigateTo_token: "token (navigateTo view serverId w) = token w"
  by (simp add: navigateTo_def render_token clearInterval_def Let_def split: option.splits)

lemma navigateTo_pending_dashboard:
  "truthy (token w) \<Longrightarrow>
     pending (navigateTo ''dashboard'' serverId w) = pending w @ [DashboardCall]"
  by (simp add: navigateTo_def render_pending_dashboard clearInterval_def Let_def
        split: option.splits)

lemma navigateTo_pending_server:
  "truthy (token w) \<Longrightarrow> currentServer w = Some sid \<Longrightarrow> sid \<noteq> [] \<Longrightarrow>
     pending (navigateTo ''server'' None w) = pending w @ [ServerCall True sid]"
  by (simp add: navigateTo_def render_pending_server clearInterval_def Let_def truthy_def
        split: option.splits)

lemma not_ok_401: "status r = 401 \<Longrightarrow> \<not> ok r"
  by (simp add: ok_def)

text \<open>Unfolding the whole model, to run it on the scenarios.\<close>

lemmas eval_defs = run.simps step.simps boot_def initial_def render_def truthy_def
  renderDashboard_def renderServerView_def loadDashboardData_start_def loadServerData_start_def
  setInterval_def clearInterval_def navigateTo_def setTab_def logout_def settle_def
  loadServerData_resume_def request_settle_def ok_def show_header_def show_tab_def set_pane_def
  setupConsole_def new_socket_def close_socket_def update_header_def query_badge_def
  query_button_group_def query_info_def catch_load_def Let_def
  set_badge_def set_info_def set_button_group_def badge_class_of_def buttons_of_def
  alpha_def ok_json_def no_content_def

lemma console_world_eq:
  "console_world =
     \<lparr>token = Some ''abc'', currentView = ''server'', currentTab = ''console'',
      currentServer = Some ''s1'', pollInterval = Some 2, serverData = JVal (alpha ''running''),
      storage = Some ''abc'', timers = [(2, ServerPoll)], next_handle = 3, ws = Some 0,
      sockets = [\<lparr>sock_server = ''s1'', sock_live = True\<rparr>],
      page = ServerPage
               (HeaderMounted
                  \<lparr>title = ''Alpha'', badge_class = ''badge badge-success'',
                   badge_text = ''running'', info_text = info_line (alpha ''running''),
                   button_group = [StopAction, RestartAction, DeleteAction]\<rparr>)
               ConsolePane,
      next_node = 1, pending = [DashboardCall]\<rparr>"
  by (simp add: console_world_def eval_defs)



subsection \<open>The API client\<close>

text \<open>
  C3. For every response with status 401, \<^verbatim>\<open>api.request\<close> clears the token in
  memory and the one in \<^verbatim>\<open>localStorage\<close> and renders the login view, and then
  throws to its caller: the world the caller's handler runs in has no token and shows the
  login page, and the caller gets an \<^verbatim>\<open>Error\<close> whose message is the body text, or
  the status line when the body is empty or cannot be read.
\<close>

theorem request_401_clears_credential:
  assumes "status r = 401"
  shows "token (fst (request_settle (Response r) w)) = None
       \<and> storage (fst (request_settle (Response r) w)) = None
       \<and> page (fst (request_settle (Response r) w)) = LoginPage
       \<and> snd (request_settle (Response r) w) =
           Inl (Error (case text_body r of
                         None \<Rightarrow> statusText r
                       | Some t \<Rightarrow> if t \<noteq> [] then t else statusText r))"
  using assms
  by (simp add: request_settle_def not_ok_401 render_no_token truthy_def split: option.splits)

theorem request_401_clears_credential_witness:
  "status \<lparr>status = 401, statusText = ''Unauthorized'', text_body = Some ''bad token'',
           json_body = (None :: unit js option)\<rparr> = 401
   \<and> token (fst (request_settle
        (Response \<lparr>status = 401, statusText = ''Unauthorized'', text_body = Some ''bad token'',
                   json_body = (None :: unit js option)\<rparr>) (boot (Some ''abc'')))) = None
   \<and> storage (fst (request_settle
        (Response \<lparr>status = 401, statusText = ''Unauthorized'', text_body = Some ''bad token'',
                   json_body = (None :: unit js option)\<rparr>) (boot (Some ''abc'')))) = None
   \<and> page (fst (request_settle
        (Response \<lparr>status = 401, statusText = ''Unauthorized'', text_body = Some ''bad token'',
                   json_body = (None :: unit js option)\<rparr>) (boot (Some ''abc'')))) = LoginPage
   \<and> snd (request_settle
        (Response \<lparr>status = 401, statusText = ''Unauthorized'', text_body = Some ''bad token'',
                   json_body = (None :: unit js option)\<rparr>) (boot (Some ''abc'')))
       = Inl (Error ''bad token'')"
  using request_401_clears_credential
          [of "\<lparr>status = 401, statusText = ''Unauthorized'', text_body = Some ''bad token'',
                json_body = (None :: unit js option)\<rparr>" "boot (Some ''abc'')"]
  by simp

text \<open>
  C5, as stated, fails: the result for a 204 and the result for a 200 whose body is not
  JSON are the same value, \<^verbatim>\<open>null\<close>.
\<close>

theorem no_content_same_as_malformed:
  "snd (request_settle
          (Response \<lparr>status = 204, statusText = ''No Content'', text_body = Some [],
                     json_body = (None :: unit js option)\<rparr>) (boot (Some ''abc'')))
   = snd (request_settle
          (Response \<lparr>status = 200, statusText = ''OK'', text_body = Some ''<html>'',
                     json_body = (None :: unit js option)\<rparr>) (boot (Some ''abc'')))"
  by (simp add: request_settle_def ok_def)

text \<open>
  C5, amended. On a successful response \<^verbatim>\<open>api.request\<close> resolves to \<^verbatim>\<open>null\<close>
  exactly when the status is 204, the body fails to parse, or the body parses to
  \<^verbatim>\<open>null\<close>; a non-204 response whose body parses to a value other than \<^verbatim>\<open>null\<close>
  (an empty object, say) resolves to that value, which is distinct from the 204 result.
\<close>

theorem request_success_result:
  assumes "ok r"
  shows "(snd (request_settle (Response r) w) = Inr JNull
            \<longleftrightarrow> status r = 204 \<or> json_body r = None \<or> json_body r = Some JNull)
       \<and> (status r \<noteq> 204 \<and> json_body r = Some (JVal v)
            \<longrightarrow> snd (request_settle (Response r) w) = Inr (JVal v))"
  using assms by (auto simp add: request_settle_def split: option.splits)

theorem request_success_result_witness:
  "ok \<lparr>status = 200, statusText = ''OK'', text_body = Some ''{}'',
       json_body = Some (JVal ())\<rparr>
   \<and> snd (request_settle
          (Response \<lparr>status = 200, statusText = ''OK'', text_body = Some ''{}'',
                     json_body = Some (JVal ())\<rparr>) (boot None)) = Inr (JVal ())
   \<and> snd (request_settle
          (Response \<lparr>status = 200, statusText = ''OK'', text_body = Some ''{}'',
                     json_body = Some (JVal ())\<rparr>) (boot None)) \<noteq> Inr JNull"
  using request_success_result
          [of "\<lparr>status = 200, statusText = ''OK'', text_body = Some ''{}'',
                json_body = Some (JVal ())\<rparr>" "boot None" "()"]
  by (simp add: ok_def)

text \<open>
  C10. \<^verbatim>\<open>api.request\<close> never rejects on a 2xx response: it resolves, leaving the
  world as it was, and when the body fails to parse it resolves to \<^verbatim>\<open>null\<close>, the
  value it resolves to for a 204.
\<close>

theorem request_2xx_never_rejects:
  assumes "ok r"
  shows "(\<exists>v. request_settle (Response r) w = (w, Inr v))
       \<and> (json_body r = None \<longrightarrow> snd (request_settle (Response r) w) = Inr JNull)
       \<and> (status r = 204 \<longrightarrow> snd (request_settle (Response r) w) = Inr JNull)"
  using assms by (simp add: request_settle_def)

theorem request_2xx_never_rejects_witness:
  "ok \<lparr>status = 200, statusText = ''OK'', text_body = Some ''<html>'',
       json_body = (None :: unit js option)\<rparr>
   \<and> request_settle
        (Response \<lparr>status = 200, statusText = ''OK'', text_body = Some ''<html>'',
                   json_body = (None :: unit js option)\<rparr>) (boot None)
       = (boot None, Inr JNull)"
  using request_2xx_never_rejects
          [of "\<lparr>status = 200, statusText = ''OK'', text_body = Some ''<html>'',
                json_body = (None :: unit js option)\<rparr>" "boot None"]
  by (auto simp add: ok_def)

text \<open>
  C6, as stated, fails: for the same 500 response with the body "disk full",
  \<^verbatim>\<open>api.request\<close> throws an \<^verbatim>\<open>Error\<close> carrying the server's text, while
  \<^verbatim>\<open>api.uploadWorld\<close> rejects with the fixed string "Upload failed".
\<close>

theorem upload_rejects_with_fixed_text:
  "snd (upload_settle
          (Response \<lparr>status = 500, statusText = ''Internal Server Error'',
                     text_body = Some ''disk full'', json_body = (None :: unit js option)\<rparr>)
          (boot (Some ''abc''))) = Inl (RejectedWith ''Upload failed'')
   \<and> snd (request_settle
          (Response \<lparr>status = 500, statusText = ''Internal Server Error'',
                     text_body = Some ''disk full'', json_body = (None :: unit js option)\<rparr>)
          (boot (Some ''abc''))) = Inl (Error ''disk full'')"
  by (simp add: upload_settle_def request_settle_def ok_def)

text \<open>
  C6, amended. With a token present both paths send the same
  \<^verbatim>\<open>Authorization: Bearer\<close> header; \<^verbatim>\<open>uploadWorld\<close> sends no
  \<^verbatim>\<open>Content-Type\<close> header where \<^verbatim>\<open>api.request\<close> sends the JSON one. Every
  non-2xx response makes \<^verbatim>\<open>uploadWorld\<close> reject with the fixed text
  "Upload failed", whatever the server's message; for a non-2xx response other than 401
  neither path changes the world. On a 2xx response other than 201, and when the fetch
  itself fails, both paths give the same result.
\<close>

theorem upload_and_request:
  "(token w = Some t \<and> t \<noteq> [] \<longrightarrow>
      upload_headers w ''Authorization'' = Some (''Bearer '' @ t)
    \<and> request_headers opts w ''Authorization'' = Some (''Bearer '' @ t))
   \<and> upload_headers w ''Content-Type'' = None
   \<and> request_headers Map.empty w ''Content-Type'' = Some ''application/json''
   \<and> (\<not> ok r \<longrightarrow> snd (upload_settle (Response r) w) = Inl (RejectedWith ''Upload failed''))
   \<and> (\<not> ok r \<and> status r \<noteq> 401 \<longrightarrow>
        fst (upload_settle (Response r) w) = w \<and> fst (request_settle (Response r) w) = w)
   \<and> (ok r \<and> status r \<noteq> 201 \<longrightarrow>
        upload_settle (Response r) w = request_settle (Response r) w)
   \<and> upload_settle (NetworkFailure m) w = request_settle (NetworkFailure m) w"
  by (auto simp add: upload_headers_def request_headers_def upload_settle_def
        request_settle_def Let_def split: option.splits)

theorem upload_and_request_witness:
  "token (boot (Some ''abc'')) = Some ''abc'' \<and> ''abc'' \<noteq> []
   \<and> upload_headers (boot (Some ''abc'')) ''Authorization'' = Some ''Bearer abc''
   \<and> request_headers Map.empty (boot (Some ''abc'')) ''Authorization'' = Some ''Bearer abc''
   \<and> \<not> ok \<lparr>status = 500, statusText = ''Internal Server Error'',
             text_body = Some ''disk full'', json_body = (None :: unit js option)\<rparr>
   \<and> snd (upload_settle
          (Response \<lparr>status = 500, statusText = ''Internal Server Error'',
                     text_body = Some ''disk full'', json_body = (None :: unit js option)\<rparr>)
          (boot (Some ''abc''))) = Inl (RejectedWith ''Upload failed'')"
proof -
  have tok: "token (boot (Some ''abc'')) = Some ''abc''"
    by (simp add: boot_token truthy_def)
  show ?thesis
    using tok upload_and_request
          [of "boot (Some ''abc'')" "''abc''" Map.empty
              "\<lparr>status = 500, statusText = ''Internal Server Error'',
                text_body = Some ''disk full'', json_body = (None :: unit js option)\<rparr>" "[]"]
    by (auto simp add: ok_def)
qed

subsection \<open>Navigation\<close>

text \<open>
  C9. \<^verbatim>\<open>navigateTo(view)\<close> with no server id, \<^verbatim>\<open>null\<close> or the empty string
  leaves \<^verbatim>\<open>state.currentServer\<close> as it was, and a truthy id overwrites it. So
  going to the dashboard and then to the server view without an id keeps the server
  viewed before, and (with a token) the second render issues the full load of that server.
\<close>

theorem navigateTo_without_id_keeps_server:
  "(\<not> truthy serverId \<longrightarrow> currentServer (navigateTo view serverId w) = currentServer w)
   \<and> (truthy serverId \<longrightarrow> currentServer (navigateTo view serverId w) = serverId)
   \<and> currentServer (navigateTo ''server'' None (navigateTo ''dashboard'' None w))
       = currentServer w
   \<and> (truthy (token w) \<and> currentServer w = Some sid \<and> sid \<noteq> [] \<longrightarrow>
        pending (navigateTo ''server'' None (navigateTo ''dashboard'' None w))
          = pending w @ [DashboardCall, ServerCall True sid])"
  by (simp add: navigateTo_currentServer navigateTo_token navigateTo_pending_dashboard
        navigateTo_pending_server truthy_def)

theorem navigateTo_without_id_keeps_server_witness:
  "\<not> truthy None
   \<and> currentServer (navigateTo ''dashboard'' None
        (navigateTo ''server'' (Some ''s1'') (boot (Some ''abc'')))) = Some ''s1''
   \<and> truthy (Some ''s1'')
   \<and> currentServer (navigateTo ''server'' (Some ''s1'') (boot (Some ''abc''))) = Some ''s1''
   \<and> truthy (token (navigateTo ''server'' (Some ''s1'') (boot (Some ''abc''))))
   \<and> pending (navigateTo ''server'' None (navigateTo ''dashboard'' None
        (navigateTo ''server'' (Some ''s1'') (boot (Some ''abc'')))))
       = pending (navigateTo ''server'' (Some ''s1'') (boot (Some ''abc'')))
           @ [DashboardCall, ServerCall True ''s1'']"
proof -
  have t: "truthy (Some ''s1'')" "\<not> truthy None"
    by (simp_all add: truthy_def)
  have tok: "truthy (token (navigateTo ''server'' (Some ''s1'') (boot (Some ''abc''))))"
    by (simp add: navigateTo_token boot_token truthy_def)
  show ?thesis
    using t tok
      navigateTo_without_id_keeps_server
        [of "Some ''s1''" "''server''" "boot (Some ''abc'')" "''s1''"]
      navigateTo_without_id_keeps_server
        [of None "''dashboard''" "navigateTo ''server'' (Some ''s1'') (boot (Some ''abc''))"
            "''s1''"]
    by auto
qed

subsection \<open>The poll timer\<close>

text \<open>
  C1 on the code: after a stored token "abc", \<^verbatim>\<open>navigateTo('server', 's1')\<close> and
  \<^verbatim>\<open>setTab('files')\<close>, two intervals are live. \<^verbatim>\<open>setTab\<close> renders without
  clearing the interval that \<^verbatim>\<open>navigateTo\<close> started (handle 2), and
  \<^verbatim>\<open>render\<close> overwrites \<^verbatim>\<open>state.pollInterval\<close> with the new handle 3, so that
  handle 2 can no longer be cleared.
\<close>

theorem setTab_leaves_two_timers:
  "timers (run [NavigateTo ''server'' (Some ''s1''), SetTab ''files''] (boot (Some ''abc'')))
     = [(2, ServerPoll), (3, ServerPoll)]
   \<and> pollInterval
        (run [NavigateTo ''server'' (Some ''s1''), SetTab ''files''] (boot (Some ''abc'')))
     = Some 3"
  by (simp add: eval_defs)

subsection \<open>The header of the server view\<close>

lemma update_header_mounted:
  "update_header s (HeaderMounted v) =
     HeaderMounted (v\<lparr>badge_class := badge_class_of s, badge_text := state s,
                      info_text := info_line s, button_group := buttons_of s\<rparr>)"
  by (simp add: update_header_def query_badge_def query_button_group_def query_info_def
        set_badge_def set_info_def set_button_group_def)

lemma update_header_empty:
  "update_header s HeaderEmpty =
     HeaderMounted \<lparr>title = name s, badge_class = badge_class_of s, badge_text = state s,
                    info_text = info_line s, button_group = buttons_of s\<rparr>"
  by (simp add: update_header_def query_badge_def)

lemma update_header_twice: "update_header s (update_header s h) = update_header s h"
  by (cases h) (simp_all add: update_header_mounted update_header_empty)

lemma query_badge_update_header:
  "query_badge (update_header s h) = Some (badge_class_of s, state s)"
  by (cases h) (simp_all add: update_header_mounted update_header_empty query_badge_def)

lemma poll_tick_ok:
  assumes "ok r" "status r \<noteq> 204" "json_body r = Some (JVal s)"
  shows "loadServerData_resume False (Response r) w =
           (case page w of
              ServerPage h t \<Rightarrow> w\<lparr>serverData := JVal s, page := ServerPage (update_header s h) t\<rparr>
            | _ \<Rightarrow> w\<lparr>serverData := JVal s\<rparr>)"
  using assms
  by (simp add: loadServerData_resume_def request_settle_def show_header_def split: page.splits)

lemma poll_tick_twice:
  "loadServerData_resume False fr (loadServerData_resume False fr w)
     = loadServerData_resume False fr w"
proof (cases fr)
  case (NetworkFailure m)
  then show ?thesis
    by (simp add: loadServerData_resume_def request_settle_def catch_load_def)
next
  case (Response r)
  show ?thesis
  proof (cases "ok r")
    case False
    then show ?thesis using Response
      by (simp add: loadServerData_resume_def request_settle_def catch_load_def Let_def
            render_def truthy_def)
  next
    case True
    then show ?thesis using Response
      by (simp add: loadServerData_resume_def request_settle_def catch_load_def show_header_def
            update_header_twice split: page.splits js.splits option.splits)
  qed
qed

lemma handleStop_ok:
  "ok ra \<Longrightarrow> handleStop_resume (Response ra) w =
     loadServerData_start False (patch_badge ''stopping'' ''badge badge-error'' w)"
  by (simp add: handleStop_resume_def request_settle_def)

lemma loadServerData_start_page: "page (loadServerData_start b w) = page w"
  by (simp add: loadServerData_start_def split: option.splits)

lemma patch_badge_mounted:
  "page w = ServerPage (HeaderMounted v) t \<Longrightarrow>
     page (patch_badge txt cls w)
       = ServerPage (HeaderMounted (v\<lparr>badge_class := cls, badge_text := txt\<rparr>)) t"
  by (simp add: patch_badge_def query_badge_def set_badge_def)

text \<open>
  C7. For every snapshot, writing it into the header twice gives the header that writing
  it once gives, whether the header was empty (the first write mounts the template, the
  second patches it) or mounted. The same holds for the whole poll tick,
  \<^verbatim>\<open>loadServerData(false)\<close> from the moment its request settles, whatever the
  outcome of the request; a tick that brings the snapshot \<open>s\<close> to a server view shows
  the header updated with \<open>s\<close>.
\<close>

theorem header_patch_idempotent:
  "update_header s (update_header s h) = update_header s h
   \<and> loadServerData_resume False fr (loadServerData_resume False fr w)
       = loadServerData_resume False fr w
   \<and> (ok r \<and> status r \<noteq> 204 \<and> json_body r = Some (JVal s) \<and> page w = ServerPage h t \<longrightarrow>
        page (loadServerData_resume False (Response r) w) = ServerPage (update_header s h) t)"
  by (simp add: update_header_twice poll_tick_twice poll_tick_ok)

theorem header_patch_idempotent_witness:
  "ok (ok_json (alpha ''stopped''))
   \<and> status (ok_json (alpha ''stopped'')) \<noteq> 204
   \<and> json_body (ok_json (alpha ''stopped'')) = Some (JVal (alpha ''stopped''))
   \<and> page console_world
       = ServerPage
           (HeaderMounted
              \<lparr>title = ''Alpha'', badge_class = ''badge badge-success'',
               badge_text = ''running'', info_text = info_line (alpha ''running''),
               button_group = [StopAction, RestartAction, DeleteAction]\<rparr>)
           ConsolePane
   \<and> page (loadServerData_resume False (Response (ok_json (alpha ''stopped''))) console_world)
       = ServerPage
           (HeaderMounted
              \<lparr>title = ''Alpha'', badge_class = ''badge badge-error'',
               badge_text = ''stopped'', info_text = info_line (alpha ''stopped''),
               button_group = [StartAction, RestartAction, DeleteAction]\<rparr>)
           ConsolePane
   \<and> loadServerData_resume False (Response (ok_json (alpha ''stopped'')))
        (loadServerData_resume False (Response (ok_json (alpha ''stopped''))) console_world)
       = loadServerData_resume False (Response (ok_json (alpha ''stopped''))) console_world"
proof -
  have p: "page console_world
     = ServerPage
         (HeaderMounted
            \<lparr>title = ''Alpha'', badge_class = ''badge badge-success'',
             badge_text = ''running'', info_text = info_line (alpha ''running''),
             button_group = [StopAction, RestartAction, DeleteAction]\<rparr>)
         ConsolePane"
    by (simp add: console_world_eq)
  have r: "ok (ok_json (alpha ''stopped''))"
    "status (ok_json (alpha ''stopped'')) \<noteq> 204"
    "json_body (ok_json (alpha ''stopped'')) = Some (JVal (alpha ''stopped''))"
    by (simp_all add: ok_def ok_json_def)
  have s: "badge_class_of (alpha ''stopped'') = ''badge badge-error''"
    "state (alpha ''stopped'') = ''stopped''"
    "buttons_of (alpha ''stopped'') = [StartAction, RestartAction, DeleteAction]"
    by (simp_all add: badge_class_of_def buttons_of_def alpha_def)
  show ?thesis
    using p r
      header_patch_idempotent
        [of "alpha ''stopped''"
            "HeaderMounted
              \<lparr>title = ''Alpha'', badge_class = ''badge badge-success'',
               badge_text = ''running'', info_text = info_line (alpha ''running''),
               button_group = [StopAction, RestartAction, DeleteAction]\<rparr>"
            "Response (ok_json (alpha ''stopped''))" console_world
            "ok_json (alpha ''stopped'')" ConsolePane]
    by (simp add: s update_header_mounted)
qed

text \<open>
  C4. In a server view whose header is mounted, \<^verbatim>\<open>handleStop\<close> after a successful
  stop request shows the badge "stopping"; the poll tick applied next shows the state
  of its snapshot, with the class that goes with it: "stopped" for a snapshot whose
  state is "stopped".
\<close>

theorem authoritative_snapshot_wins:
  assumes "page w = ServerPage (HeaderMounted v) t"
    and "ok ra" and "ok r" and "status r \<noteq> 204" and "json_body r = Some (JVal s)"
  shows "displayed_badge (handleStop_resume (Response ra) w)
           = Some (''badge badge-error'', ''stopping'')
       \<and> displayed_badge
            (loadServerData_resume False (Response r) (handleStop_resume (Response ra) w))
           = Some (badge_class_of s, state s)"
proof -
  let ?w1 = "handleStop_resume (Response ra) w"
  have p1: "page ?w1
      = ServerPage (HeaderMounted (v\<lparr>badge_class := ''badge badge-error'',
                                     badge_text := ''stopping''\<rparr>)) t"
    using assms(1,2) by (simp add: handleStop_ok loadServerData_start_page patch_badge_mounted)
  have a: "displayed_badge ?w1 = Some (''badge badge-error'', ''stopping'')"
    by (simp add: displayed_badge_def p1 query_badge_def)
  have "page (loadServerData_resume False (Response r) ?w1)
      = ServerPage (update_header s (HeaderMounted (v\<lparr>badge_class := ''badge badge-error'',
                                     badge_text := ''stopping''\<rparr>))) t"
    using assms(3,4,5) by (simp add: poll_tick_ok p1)
  then have b: "displayed_badge (loadServerData_resume False (Response r) ?w1)
      = Some (badge_class_of s, state s)"
    by (simp add: displayed_badge_def query_badge_update_header)
  from a b show ?thesis by simp
qed

theorem authoritative_snapshot_wins_witness:
  "page console_world
     = ServerPage
         (HeaderMounted
            \<lparr>title = ''Alpha'', badge_class = ''badge badge-success'',
             badge_text = ''running'', info_text = info_line (alpha ''running''),
             button_group = [StopAction, RestartAction, DeleteAction]\<rparr>)
         ConsolePane
   \<and> ok (no_content :: unit response)
   \<and> ok (ok_json (alpha ''stopped''))
   \<and> status (ok_json (alpha ''stopped'')) \<noteq> 204
   \<and> json_body (ok_json (alpha ''stopped'')) = Some (JVal (alpha ''stopped''))
   \<and> displayed_badge (handleStop_resume (Response (no_content :: unit response)) console_world)
       = Some (''badge badge-error'', ''stopping'')
   \<and> displayed_badge
        (loadServerData_resume False (Response (ok_json (alpha ''stopped'')))
           (handleStop_resume (Response (no_content :: unit response)) console_world))
       = Some (''badge badge-error'', ''stopped'')"
proof -
  have p: "page console_world
     = ServerPage
         (HeaderMounted
            \<lparr>title = ''Alpha'', badge_class = ''badge badge-success'',
             badge_text = ''running'', info_text = info_line (alpha ''running''),
             button_group = [StopAction, RestartAction, DeleteAction]\<rparr>)
         ConsolePane"
    by (simp add: console_world_eq)
  have r: "ok (no_content :: unit response)" "ok (ok_json (alpha ''stopped''))"
    "status (ok_json (alpha ''stopped'')) \<noteq> 204"
    "json_body (ok_json (alpha ''stopped'')) = Some (JVal (alpha ''stopped''))"
    by (simp_all add: ok_def no_content_def ok_json_def)
  have s: "badge_class_of (alpha ''stopped'') = ''badge badge-error''"
    "state (alpha ''stopped'') = ''stopped''"
    by (simp_all add: badge_class_of_def alpha_def)
  show ?thesis
    using p r authoritative_snapshot_wins [OF p r]
    by (simp add: s)
qed

subsection \<open>The console socket\<close>

lemma render_sock: "ws (render w) = ws w \<and> sockets (render w) = sockets w"
  by (simp add: render_def renderDashboard_def renderServerView_def loadDashboardData_start_def
        loadServerData_start_def setInterval_def Let_def split: option.splits)

lemma navigateTo_sock:
  "ws (navigateTo view serverId w) = ws w \<and> sockets (navigateTo view serverId w) = sockets w"
  by (simp add: navigateTo_def render_sock clearInterval_def Let_def split: option.splits)

lemma setTab_sock: "ws (setTab tab w) = ws w \<and> sockets (setTab tab w) = sockets w"
  by (simp add: setTab_def render_sock)

lemma logout_sock: "ws (logout w) = ws w \<and> sockets (logout w) = sockets w"
  by (simp add: logout_def render_sock clearInterval_def Let_def split: option.splits)

lemma loadServerData_start_sock:
  "ws (loadServerData_start b w) = ws w \<and> sockets (loadServerData_start b w) = sockets w"
  by (simp add: loadServerData_start_def split: option.splits)

lemma request_settle_sock:
  "ws (fst (request_settle fr w)) = ws w \<and> sockets (fst (request_settle fr w)) = sockets w"
  by (simp add: request_settle_def render_sock Let_def split: fetch_result.splits)

lemma show_header_sock:
  "ws (fst (show_header sv w)) = ws w \<and> sockets (fst (show_header sv w)) = sockets w"
  by (simp add: show_header_def split: page.splits js.splits)

lemma set_pane_sock:
  "ws (fst (set_pane p w)) = ws w \<and> sockets (fst (set_pane p w)) = sockets w"
  by (simp add: set_pane_def split: page.splits)

lemma catch_load_sock:
  "ws (catch_load b e w) = ws w \<and> sockets (catch_load b e w) = sockets w"
  by (simp add: catch_load_def set_pane_sock)

lemma patch_badge_sock:
  "ws (patch_badge txt cls w) = ws w \<and> sockets (patch_badge txt cls w) = sockets w"
  by (simp add: patch_badge_def split: page.splits)

lemma show_dashboard_sock:
  "ws (show_dashboard a b w) = ws w \<and> sockets (show_dashboard a b w) = sockets w"
  by (simp add: show_dashboard_def Let_def split: page.splits js.splits option.splits)

lemma socket_inv_frame:
  "socket_inv w \<Longrightarrow> ws w' = ws w \<and> sockets w' = sockets w \<Longrightarrow> socket_inv w'"
  by (simp add: socket_inv_def cong: option.case_cong)

lemma close_last_socket:
  assumes "Suc k = length xs" and "filter sock_live (butlast xs) = []"
  shows "filter sock_live (xs[k := (xs ! k)\<lparr>sock_live := False\<rparr>]) = []"
proof (cases xs rule: rev_cases)
  case Nil
  with assms show ?thesis by simp
next
  case (snoc ys y)
  with assms have "k = length ys" by simp
  with snoc assms show ?thesis by simp
qed

lemma setupConsole_inv: "socket_inv w \<Longrightarrow> socket_inv (setupConsole sid w)"
  by (auto simp add: socket_inv_def setupConsole_def new_socket_def close_socket_def
        close_last_socket split: option.splits)

lemma set_pane_inv: "socket_inv w \<Longrightarrow> set_pane p w = (w1, x) \<Longrightarrow> socket_inv w1"
  using socket_inv_frame [OF _ set_pane_sock, of w p] by simp

lemma show_tab_inv:
  assumes "socket_inv w" and "show_tab sv w = (w1, x)"
  shows "socket_inv w1"
proof (cases "currentTab w = ''console''")
  case True
  obtain w2 y where p: "set_pane ConsolePane w = (w2, y)"
    by (cases "set_pane ConsolePane w")
  with assms(1) have i: "socket_inv w2" by (rule set_pane_inv)
  show ?thesis
  proof (cases y)
    case (Some e)
    with True p assms(2) have "w1 = w2" by (simp add: show_tab_def)
    with i show ?thesis by simp
  next
    case None
    show ?thesis
    proof (cases sv)
      case JNull
      with None True p assms(2) have "w1 = w2" by (simp add: show_tab_def)
      with i show ?thesis by simp
    next
      case (JVal s)
      with None True p assms(2) have "w1 = setupConsole (server_id s) w2"
        by (simp add: show_tab_def)
      with i show ?thesis by (simp add: setupConsole_inv)
    qed
  qed
next
  case False
  with assms(2) have "(\<exists>p. set_pane p w = (w1, x)) \<or> w1 = w"
    by (auto simp add: show_tab_def split: if_splits)
  with assms(1) show ?thesis by (auto dest: set_pane_inv)
qed

lemma catch_load_inv: "socket_inv w \<Longrightarrow> socket_inv (catch_load b e w)"
  by (rule socket_inv_frame [OF _ catch_load_sock])

lemma request_settle_inv: "socket_inv w \<Longrightarrow> request_settle fr w = (w1, res) \<Longrightarrow> socket_inv w1"
  using socket_inv_frame [OF _ request_settle_sock, of w fr] by simp

lemma show_header_inv: "socket_inv w \<Longrightarrow> show_header sv w = (w1, x) \<Longrightarrow> socket_inv w1"
  using socket_inv_frame [OF _ show_header_sock, of w sv] by simp

lemma loadServerData_resume_inv:
  assumes "socket_inv w"
  shows "socket_inv (loadServerData_resume b fr w)"
proof -
  obtain w1 res where r: "request_settle fr w = (w1, res)"
    by (cases "request_settle fr w")
  with assms have i1: "socket_inv w1" by (rule request_settle_inv)
  show ?thesis
  proof (cases res)
    case (Inl e)
    with r i1 show ?thesis by (simp add: loadServerData_resume_def catch_load_inv)
  next
    case (Inr sv)
    have i1': "socket_inv (w1\<lparr>serverData := sv\<rparr>)"
      using i1 by (rule socket_inv_frame) simp
    obtain w2 x where h: "show_header sv (w1\<lparr>serverData := sv\<rparr>) = (w2, x)"
      by (cases "show_header sv (w1\<lparr>serverData := sv\<rparr>)")
    with i1' have i2: "socket_inv w2" by (rule show_header_inv)
    obtain w3 y where t: "show_tab sv w2 = (w3, y)"
      by (cases "show_tab sv w2")
    with i2 have i3: "socket_inv w3" by (rule show_tab_inv)
    from r Inr h t i2 i3 show ?thesis
      by (simp add: loadServerData_resume_def catch_load_inv split: option.splits)
  qed
qed

lemma loadDashboardData_resume_sock:
  "ws (loadDashboardData_resume fr1 fr2 w) = ws w
   \<and> sockets (loadDashboardData_resume fr1 fr2 w) = sockets w"
proof -
  obtain w1 r1 where a: "request_settle fr1 w = (w1, r1)"
    by (cases "request_settle fr1 w")
  obtain w2 r2 where b: "request_settle fr2 w1 = (w2, r2)"
    by (cases "request_settle fr2 w1")
  have "ws w1 = ws w \<and> sockets w1 = sockets w"
    using request_settle_sock [of fr1 w] a by simp
  moreover have "ws w2 = ws w1 \<and> sockets w2 = sockets w1"
    using request_settle_sock [of fr2 w1] b by simp
  ultimately show ?thesis
    using a b
    by (simp add: loadDashboardData_resume_def show_dashboard_sock split: sum.splits)
qed

lemma handleStart_resume_sock:
  "ws (handleStart_resume fr w) = ws w \<and> sockets (handleStart_resume fr w) = sockets w"
proof -
  obtain w1 r1 where a: "request_settle fr w = (w1, r1)"
    by (cases "request_settle fr w")
  have "ws w1 = ws w \<and> sockets w1 = sockets w"
    using request_settle_sock [of fr w] a by simp
  then show ?thesis
    using a
    by (simp add: handleStart_resume_def loadServerData_start_sock patch_badge_sock
          split: sum.splits)
qed

lemma handleStop_resume_sock:
  "ws (handleStop_resume fr w) = ws w \<and> sockets (handleStop_resume fr w) = sockets w"
proof -
  obtain w1 r1 where a: "request_settle fr w = (w1, r1)"
    by (cases "request_settle fr w")
  have "ws w1 = ws w \<and> sockets w1 = sockets w"
    using request_settle_sock [of fr w] a by simp
  then show ?thesis
    using a
    by (simp add: handleStop_resume_def loadServerData_start_sock patch_badge_sock
          split: sum.splits)
qed

lemma handleRestart_resume_sock:
  "ws (handleRestart_resume fr w) = ws w \<and> sockets (handleRestart_resume fr w) = sockets w"
proof -
  obtain w1 r1 where a: "request_settle fr w = (w1, r1)"
    by (cases "request_settle fr w")
  have "ws w1 = ws w \<and> sockets w1 = sockets w"
    using request_settle_sock [of fr w] a by simp
  then show ?thesis
    using a by (simp add: handleRestart_resume_def loadServerData_start_sock split: sum.splits)
qed

lemma handleDeleteServer_resume_sock:
  "ws (handleDeleteServer_resume fr w) = ws w
   \<and> sockets (handleDeleteServer_resume fr w) = sockets w"
proof -
  obtain w1 r1 where a: "request_settle fr w = (w1, r1)"
    by (cases "request_settle fr w")
  have "ws w1 = ws w \<and> sockets w1 = sockets w"
    using request_settle_sock [of fr w] a by simp
  then show ?thesis
    using a by (simp add: handleDeleteServer_resume_def navigateTo_sock split: sum.splits)
qed

lemma login_resume_sock:
  "ws (login_resume fr w) = ws w \<and> sockets (login_resume fr w) = sockets w"
proof -
  obtain w1 r1 where a: "request_settle fr w = (w1, r1)"
    by (cases "request_settle fr w")
  have "ws w1 = ws w \<and> sockets w1 = sockets w"
    using request_settle_sock [of fr w] a by simp
  then show ?thesis
    using a by (simp add: login_resume_def render_sock split: sum.splits js.splits)
qed

lemma resume_inv:
  assumes "socket_inv w" and "resume c rep w = Some w1"
  shows "socket_inv w1"
proof (cases c)
  case DashboardCall
  with assms(2) obtain fr1 fr2 where "w1 = loadDashboardData_resume fr1 fr2 w"
    by (cases rep) auto
  with assms(1) show ?thesis
    by (simp add: socket_inv_frame [OF _ loadDashboardData_resume_sock])
next
  case (ServerCall b sid)
  with assms(2) obtain fr where "w1 = loadServerData_resume b fr w"
    by (cases rep) auto
  with assms(1) show ?thesis by (simp add: loadServerData_resume_inv)
next
  case (ActionCall a sid)
  with assms(2) have "ws w1 = ws w \<and> sockets w1 = sockets w"
    by (cases rep; cases a)
       (auto simp add: handleStart_resume_sock handleStop_resume_sock
          handleRestart_resume_sock handleDeleteServer_resume_sock)
  with assms(1) show ?thesis by (rule socket_inv_frame)
next
  case LoginCall
  with assms(2) obtain fr where "w1 = login_resume fr w"
    by (cases rep) auto
  with assms(1) show ?thesis
    by (simp add: socket_inv_frame [OF _ login_resume_sock])
qed

lemma step_inv: "socket_inv w \<Longrightarrow> socket_inv (step e w)"
proof (cases e)
  case (NavigateTo view serverId)
  assume "socket_inv w"
  then show ?thesis
    unfolding NavigateTo step.simps by (rule socket_inv_frame [OF _ navigateTo_sock])
next
  case (SetTab tab)
  assume "socket_inv w"
  then show ?thesis
    unfolding SetTab step.simps by (rule socket_inv_frame [OF _ setTab_sock])
next
  case Logout
  assume "socket_inv w"
  then show ?thesis
    unfolding Logout step.simps by (rule socket_inv_frame [OF _ logout_sock])
next
  case (Click a)
  assume "socket_inv w"
  then show ?thesis
    unfolding Click step.simps by (rule socket_inv_frame) (simp add: click_def)
next
  case SubmitLogin
  assume "socket_inv w"
  then show ?thesis
    unfolding SubmitLogin step.simps
    by (rule socket_inv_frame) (simp add: submit_login_def split: page.splits)
next
  case (Tick h)
  assume "socket_inv w"
  then show ?thesis
    unfolding Tick step.simps
    by (rule socket_inv_frame)
       (simp add: tick_def loadDashboardData_start_def loadServerData_start_sock
          split: option.splits poll_task.splits)
next
  case (Settle k rep)
  assume i: "socket_inv w"
  let ?w0 = "w\<lparr>pending := take k (pending w) @ drop (Suc k) (pending w)\<rparr>"
  from i have i0: "socket_inv ?w0" by (rule socket_inv_frame) simp
  show ?thesis
  proof (cases "k < length (pending w)")
    case False
    with i Settle show ?thesis by (simp add: settle_def)
  next
    case True
    show ?thesis
    proof (cases "resume (pending w ! k) rep ?w0")
      case None
      with i True Settle show ?thesis by (simp add: settle_def)
    next
      case (Some w1)
      with i0 have "socket_inv w1" by (rule resume_inv)
      with Some True Settle show ?thesis by (simp add: settle_def)
    qed
  qed
qed

lemma run_inv: "socket_inv w \<Longrightarrow> socket_inv (run evs w)"
  by (induction evs arbitrary: w) (simp_all add: step_inv)

lemma boot_inv: "socket_inv (boot stored)"
proof -
  have "socket_inv (initial stored)"
    by (simp add: socket_inv_def initial_def)
  then show ?thesis
    unfolding boot_def by (rule socket_inv_frame [OF _ render_sock])
qed

lemma socket_inv_live:
  assumes "socket_inv w"
  shows "length (filter sock_live (sockets w)) \<le> 1"
    and "k < length (sockets w) \<Longrightarrow> sock_live (sockets w ! k) \<Longrightarrow> ws w = Some k"
proof -
  show "length (filter sock_live (sockets w)) \<le> 1"
  proof (cases "sockets w" rule: rev_cases)
    case Nil
    then show ?thesis by simp
  next
    case (snoc ys y)
    with assms show ?thesis by (simp add: socket_inv_def split: option.splits)
  qed
  show "ws w = Some k" if "k < length (sockets w)" and "sock_live (sockets w ! k)"
  proof (cases "sockets w" rule: rev_cases)
    case Nil
    with that show ?thesis by simp
  next
    case (snoc ys y)
    with assms obtain j where j: "ws w = Some j" "j = length ys" "filter sock_live ys = []"
      by (auto simp add: socket_inv_def split: option.splits)
    have "k = length ys"
    proof (rule ccontr)
      assume "k \<noteq> length ys"
      with that(1) snoc have "k < length ys" by simp
      with that(2) snoc have "sock_live (ys ! k)" by (simp add: nth_append)
      with \<open>k < length ys\<close> have "ys ! k \<in> set (filter sock_live ys)" by simp
      with j(3) show False by simp
    qed
    with j show ?thesis by simp
  qed
qed

lemma render_currentTab: "currentTab (render w) = currentTab w"
  by (simp add: render_def renderDashboard_def renderServerView_def loadDashboardData_start_def
        loadServerData_start_def setInterval_def Let_def split: option.splits)

lemma request_settle_currentTab: "currentTab (fst (request_settle fr w)) = currentTab w"
  by (simp add: request_settle_def render_currentTab Let_def split: fetch_result.splits)

lemma show_header_currentTab: "currentTab (fst (show_header sv w)) = currentTab w"
  by (simp add: show_header_def split: page.splits js.splits)

lemma show_tab_other_sock:
  "currentTab w \<noteq> ''console'' \<Longrightarrow>
     ws (fst (show_tab sv w)) = ws w \<and> sockets (fst (show_tab sv w)) = sockets w"
  by (simp add: show_tab_def set_pane_sock)

lemma loadServerData_resume_other_sock:
  assumes "currentTab w \<noteq> ''console''"
  shows "ws (loadServerData_resume b fr w) = ws w
       \<and> sockets (loadServerData_resume b fr w) = sockets w"
proof -
  obtain w1 res where r: "request_settle fr w = (w1, res)"
    by (cases "request_settle fr w")
  have s1: "ws w1 = ws w \<and> sockets w1 = sockets w" and t1: "currentTab w1 = currentTab w"
    using request_settle_sock [of fr w] request_settle_currentTab [of fr w] r by simp_all
  show ?thesis
  proof (cases res)
    case (Inl e)
    with r s1 show ?thesis by (simp add: loadServerData_resume_def catch_load_sock)
  next
    case (Inr sv)
    let ?w1 = "w1\<lparr>serverData := sv\<rparr>"
    obtain w2 x where h: "show_header sv ?w1 = (w2, x)"
      by (cases "show_header sv ?w1")
    have s2: "ws w2 = ws w \<and> sockets w2 = sockets w" and t2: "currentTab w2 = currentTab w"
      using show_header_sock [of sv ?w1] show_header_currentTab [of sv ?w1] h s1 t1
      by simp_all
    obtain w3 y where t: "show_tab sv w2 = (w3, y)"
      by (cases "show_tab sv w2")
    have s3: "ws w3 = ws w \<and> sockets w3 = sockets w"
      using show_tab_other_sock [of w2 sv] t t2 s2 assms by simp
    from r Inr h t s2 s3 show ?thesis
      by (simp add: loadServerData_resume_def catch_load_sock split: option.splits)
  qed
qed

text \<open>
  C2, as stated, fails: with the console of "s1" open, \<^verbatim>\<open>setTab('files')\<close> and the
  arrival of the snapshot that the render asked for show the files pane, and the socket
  opened for the console is still live.
\<close>

theorem socket_survives_tab_switch:
  "page (run [SetTab ''files'',
              Settle 1 (ServerReply (Response (ok_json (alpha ''running''))))] console_world)
     = ServerPage
         (HeaderMounted
            \<lparr>title = ''Alpha'', badge_class = ''badge badge-success'',
             badge_text = ''running'', info_text = info_line (alpha ''running''),
             button_group = [StopAction, RestartAction, DeleteAction]\<rparr>)
         FilesPane
   \<and> sockets (run [SetTab ''files'',
              Settle 1 (ServerReply (Response (ok_json (alpha ''running''))))] console_world)
     = [\<lparr>sock_server = ''s1'', sock_live = True\<rparr>]"
  by (simp add: console_world_eq) (simp add: eval_defs)

text \<open>
  C2, amended. A console socket is closed only by the \<^verbatim>\<open>setupConsole\<close> that opens
  the next one, which closes the socket held in \<^verbatim>\<open>ws\<close> before it creates the new
  one: after every sequence of events at most one socket is live, and a live socket is
  the one \<^verbatim>\<open>ws\<close> holds. \<^verbatim>\<open>navigateTo\<close>, \<^verbatim>\<open>setTab\<close> and \<^verbatim>\<open>logout\<close>
  neither open nor close a socket, and neither does the load of the server's data that
  follows them when the current tab is not the console.
\<close>

theorem at_most_one_live_socket:
  "length (filter sock_live (sockets (run evs (boot stored)))) \<le> 1
   \<and> (k < length (sockets (run evs (boot stored)))
        \<and> sock_live (sockets (run evs (boot stored)) ! k)
       \<longrightarrow> ws (run evs (boot stored)) = Some k)
   \<and> sockets (navigateTo view serverId w) = sockets w
   \<and> sockets (setTab tab w) = sockets w
   \<and> sockets (logout w) = sockets w
   \<and> (currentTab w \<noteq> ''console'' \<longrightarrow>
        sockets (loadServerData_resume fullRender fr w) = sockets w)"
  using socket_inv_live(1) [OF run_inv [OF boot_inv], of evs stored]
    socket_inv_live(2) [OF run_inv [OF boot_inv], of k evs stored]
  by (simp add: navigateTo_sock setTab_sock logout_sock loadServerData_resume_other_sock)

theorem at_most_one_live_socket_witness:
  "0 < length (sockets console_world)
   \<and> sock_live (sockets console_world ! 0)
   \<and> ws console_world = Some 0
   \<and> length (filter sock_live (sockets console_world)) \<le> 1
   \<and> currentTab (setTab ''files'' console_world) \<noteq> ''console''
   \<and> sockets (loadServerData_resume True (Response (ok_json (alpha ''running'')))
        (setTab ''files'' console_world)) = sockets console_world"
proof -
  have l: "0 < length (sockets console_world)" "sock_live (sockets console_world ! 0)"
    by (simp_all add: console_world_eq)
  have t: "currentTab (setTab ''files'' console_world) \<noteq> ''console''"
    by (simp add: setTab_def render_currentTab)
  show ?thesis
    using l t
      at_most_one_live_socket
        [where evs = "[NavigateTo ''server'' (Some ''s1''),
                       Settle 1 (ServerReply (Response (ok_json (alpha ''running''))))]"
           and stored = "Some ''abc''" and k = 0 and view = "''dashboard''"
           and serverId = None and tab = "''files''"
           and w = "setTab ''files'' console_world" and fullRender = True
           and fr = "Response (ok_json (alpha ''running''))",
         folded console_world_def]
    by (simp add: setTab_sock)
qed

subsection \<open>The dashboard\<close>

lemma node_inv_frame:
  "node_inv w \<Longrightarrow> displayed_rows w' = displayed_rows w \<and> next_node w' = next_node w \<Longrightarrow>
     node_inv w'"
  by (simp add: node_inv_def)

lemma render_node: "node_inv (render w)"
  by (simp add: node_inv_def displayed_rows_def render_def renderDashboard_def
        renderServerView_def loadDashboardData_start_def loadServerData_start_def
        setInterval_def Let_def split: option.splits)

lemma request_settle_node:
  "node_inv w \<Longrightarrow> request_settle fr w = (w1, res) \<Longrightarrow> node_inv w1"
  by (auto simp add: request_settle_def render_node Let_def split: fetch_result.splits if_splits)

lemma show_header_rows:
  "displayed_rows (fst (show_header sv w)) = displayed_rows w
   \<and> next_node (fst (show_header sv w)) = next_node w"
  by (simp add: show_header_def displayed_rows_def split: page.splits js.splits)

lemma set_pane_rows:
  "displayed_rows (fst (set_pane p w)) = displayed_rows w
   \<and> next_node (fst (set_pane p w)) = next_node w"
  by (simp add: set_pane_def displayed_rows_def split: page.splits)

lemma setupConsole_rows:
  "displayed_rows (setupConsole sid w) = displayed_rows w
   \<and> next_node (setupConsole sid w) = next_node w"
  by (simp add: setupConsole_def new_socket_def close_socket_def displayed_rows_def
        split: option.splits)

lemma show_tab_rows:
  "displayed_rows (fst (show_tab sv w)) = displayed_rows w
   \<and> next_node (fst (show_tab sv w)) = next_node w"
proof -
  have "displayed_rows (fst (set_pane ConsolePane w)) = displayed_rows w
      \<and> next_node (fst (set_pane ConsolePane w)) = next_node w"
    by (rule set_pane_rows)
  then show ?thesis
    by (cases "set_pane ConsolePane w")
       (auto simp add: show_tab_def set_pane_rows setupConsole_rows
          split: option.splits js.splits)
qed

lemma catch_load_rows:
  "displayed_rows (catch_load b e w) = displayed_rows w
   \<and> next_node (catch_load b e w) = next_node w"
  by (simp add: catch_load_def set_pane_rows)

lemma patch_badge_rows:
  "displayed_rows (patch_badge txt cls w) = displayed_rows w
   \<and> next_node (patch_badge txt cls w) = next_node w"
  by (simp add: patch_badge_def displayed_rows_def split: page.splits)

lemma loadServerData_start_rows:
  "displayed_rows (loadServerData_start b w) = displayed_rows w
   \<and> next_node (loadServerData_start b w) = next_node w"
  by (simp add: loadServerData_start_def displayed_rows_def split: option.splits)

lemma loadDashboardData_start_rows:
  "displayed_rows (loadDashboardData_start w) = displayed_rows w
   \<and> next_node (loadDashboardData_start w) = next_node w"
  by (simp add: loadDashboardData_start_def displayed_rows_def)

lemma new_rows_fresh: "filter (\<lambda>r. n + length (new_rows n ss) \<le> fst r) (new_rows n ss) = []"
proof -
  have "\<forall>r \<in> set (new_rows n ss). fst r < n + length (new_rows n ss)"
    by (auto simp add: new_rows_def dest: set_zip_leftD)
  then show ?thesis
    by (auto simp add: filter_empty_conv)
qed

lemma new_rows_from: "\<forall>r \<in> set (new_rows n ss). n \<le> fst r"
  by (auto simp add: new_rows_def dest: set_zip_leftD)

lemma show_dashboard_node: "node_inv w \<Longrightarrow> node_inv (show_dashboard servers sts w)"
  by (auto simp add: show_dashboard_def node_inv_def displayed_rows_def Let_def new_rows_fresh
        split: page.splits js.splits option.splits)

lemma loadServerData_resume_node:
  assumes "node_inv w"
  shows "node_inv (loadServerData_resume b fr w)"
proof -
  obtain w1 res where r: "request_settle fr w = (w1, res)"
    by (cases "request_settle fr w")
  with assms have i1: "node_inv w1" by (rule request_settle_node)
  show ?thesis
  proof (cases res)
    case (Inl e)
    with r show ?thesis
      by (simp add: loadServerData_resume_def node_inv_frame [OF i1 catch_load_rows])
  next
    case (Inr sv)
    let ?w1 = "w1\<lparr>serverData := sv\<rparr>"
    have i1': "node_inv ?w1"
      using i1 by (rule node_inv_frame) (simp add: displayed_rows_def)
    obtain w2 x where h: "show_header sv ?w1 = (w2, x)"
      by (cases "show_header sv ?w1")
    have i2: "node_inv w2"
      using node_inv_frame [OF i1' show_header_rows, of sv] h by simp
    obtain w3 y where t: "show_tab sv w2 = (w3, y)"
      by (cases "show_tab sv w2")
    have i3: "node_inv w3"
      using node_inv_frame [OF i2 show_tab_rows, of sv] t by simp
    from r Inr h t i2 i3 show ?thesis
      by (simp add: loadServerData_resume_def node_inv_frame [OF _ catch_load_rows]
            split: option.splits)
  qed
qed

lemma loadDashboardData_resume_node:
  assumes "node_inv w"
  shows "node_inv (loadDashboardData_resume fr1 fr2 w)"
proof -
  obtain w1 r1 where a: "request_settle fr1 w = (w1, r1)"
    by (cases "request_settle fr1 w")
  obtain w2 r2 where b: "request_settle fr2 w1 = (w2, r2)"
    by (cases "request_settle fr2 w1")
  from assms a have "node_inv w1" by (rule request_settle_node)
  then have "node_inv w2" using b by (rule request_settle_node)
  then show ?thesis
    using a b by (simp add: loadDashboardData_resume_def show_dashboard_node split: sum.splits)
qed

lemma navigateTo_node: "node_inv (navigateTo view serverId w)"
  by (simp add: navigateTo_def render_node Let_def)

lemma handler_resume_node:
  assumes "node_inv w"
  shows "node_inv (handleStart_resume fr w)" and "node_inv (handleStop_resume fr w)"
    and "node_inv (handleRestart_resume fr w)" and "node_inv (handleDeleteServer_resume fr w)"
proof -
  obtain w1 r1 where a: "request_settle fr w = (w1, r1)"
    by (cases "request_settle fr w")
  with assms have i: "node_inv w1" by (rule request_settle_node)
  have p: "node_inv (loadServerData_start False (patch_badge label cls w1))" for label cls
    using i by (rule node_inv_frame) (simp add: loadServerData_start_rows patch_badge_rows)
  have q: "node_inv (loadServerData_start False w1)"
    using i by (rule node_inv_frame) (simp add: loadServerData_start_rows)
  show "node_inv (handleStart_resume fr w)"
    using a i p by (simp add: handleStart_resume_def split: sum.splits)
  show "node_inv (handleStop_resume fr w)"
    using a i p by (simp add: handleStop_resume_def split: sum.splits)
  show "node_inv (handleRestart_resume fr w)"
    using a i q by (simp add: handleRestart_resume_def split: sum.splits)
  show "node_inv (handleDeleteServer_resume fr w)"
    using a i by (simp add: handleDeleteServer_resume_def navigateTo_node split: sum.splits)
qed

lemma login_resume_node:
  assumes "node_inv w"
  shows "node_inv (login_resume fr w)"
proof -
  obtain w1 r1 where a: "request_settle fr w = (w1, r1)"
    by (cases "request_settle fr w")
  with assms have i: "node_inv w1" by (rule request_settle_node)
  then show ?thesis
    using a by (simp add: login_resume_def render_node split: sum.splits js.splits)
qed

lemma resume_node:
  assumes "node_inv w" and "resume c rep w = Some w1"
  shows "node_inv w1"
proof (cases c)
  case DashboardCall
  with assms show ?thesis
    by (cases rep) (auto simp add: loadDashboardData_resume_node)
next
  case (ServerCall b sid)
  with assms show ?thesis
    by (cases rep) (auto simp add: loadServerData_resume_node)
next
  case (ActionCall a sid)
  with assms show ?thesis
    by (cases rep; cases a) (auto simp add: handler_resume_node)
next
  case LoginCall
  with assms show ?thesis
    by (cases rep) (auto simp add: login_resume_node)
qed

lemma step_node:
  assumes "node_inv w"
  shows "node_inv (step e w)"
proof (cases e)
  case (NavigateTo view serverId)
  then show ?thesis by (simp add: navigateTo_node)
next
  case (SetTab tab)
  then show ?thesis by (simp add: setTab_def render_node)
next
  case Logout
  then show ?thesis by (simp add: logout_def render_node Let_def)
next
  case (Click a)
  have "node_inv (click a w)"
    using assms by (rule node_inv_frame) (simp add: click_def displayed_rows_def)
  with Click show ?thesis by simp
next
  case SubmitLogin
  have "node_inv (submit_login w)"
    using assms
    by (rule node_inv_frame) (simp add: submit_login_def displayed_rows_def split: page.splits)
  with SubmitLogin show ?thesis by simp
next
  case (Tick h)
  have "node_inv (tick h w)"
    using assms
    by (rule node_inv_frame)
       (simp add: tick_def loadDashboardData_start_rows loadServerData_start_rows
          split: option.splits poll_task.splits)
  with Tick show ?thesis by simp
next
  case (Settle k rep)
  let ?w0 = "w\<lparr>pending := take k (pending w) @ drop (Suc k) (pending w)\<rparr>"
  have i0: "node_inv ?w0"
    using assms by (rule node_inv_frame) (simp add: displayed_rows_def)
  show ?thesis
  proof (cases "k < length (pending w)")
    case False
    with assms Settle show ?thesis by (simp add: settle_def)
  next
    case True
    show ?thesis
    proof (cases "resume (pending w ! k) rep ?w0")
      case None
      with assms True Settle show ?thesis by (simp add: settle_def)
    next
      case (Some w1)
      with i0 have "node_inv w1" by (rule resume_node)
      with Some True Settle show ?thesis by (simp add: settle_def)
    qed
  qed
qed

lemma run_node: "node_inv w \<Longrightarrow> node_inv (run evs w)"
  by (induction evs arbitrary: w) (simp_all add: step_node)

lemma boot_node: "node_inv (boot stored)"
  by (simp add: boot_def render_node)

lemma fleet_tick_ok:
  assumes "ok r1" and "status r1 \<noteq> 204" and "json_body r1 = Some (JVal ss)"
    and "ok r2" and "status r2 \<noteq> 204" and "json_body r2 = Some (JVal st)"
  shows "loadDashboardData_resume (Response r1) (Response r2) w
           = show_dashboard (JVal ss) (JVal st) w"
  using assms by (simp add: loadDashboardData_resume_def request_settle_def)



text \<open>
  A tick whose statistics carry a CPU figure runs to its end: the counts are written into
  the counters and the children of \<^verbatim>\<open>#servers-list\<close> are replaced by new nodes, one
  row for each server of the reply or the "No servers found" card.
\<close>

theorem fleet_tick_renews_rows:
  assumes "w = run evs (boot stored)" and "page w = DashboardPage d"
    and "ok r1" and "status r1 \<noteq> 204" and "json_body r1 = Some (JVal ss)"
    and "ok r2" and "status r2 \<noteq> 204" and "json_body r2 = Some (JVal st)"
    and "total_cpu_percent st = Some c"
  shows "displayed_counters (loadDashboardData_resume (Response r1) (Response r2) w)
           = Some (string_of_nat (total_servers st), string_of_nat (running_servers st))
       \<and> map snd (displayed_rows (loadDashboardData_resume (Response r1) (Response r2) w))
           = (if ss = [] then [NoServersRow] else map ServerRow ss)
       \<and> set (map fst (displayed_rows (loadDashboardData_resume (Response r1) (Response r2) w)))
           \<inter> set (map fst (displayed_rows w)) = {}"
proof -
  let ?w' = "loadDashboardData_resume (Response r1) (Response r2) w"
  have e: "?w' = show_dashboard (JVal ss) (JVal st) w"
    using assms(3-8) by (rule fleet_tick_ok)
  have rows: "displayed_rows ?w' = new_rows (next_node w) ss"
    using assms(2,9) by (simp add: e show_dashboard_def displayed_rows_def Let_def)
  have "node_inv w"
    unfolding assms(1) by (rule run_node [OF boot_node])
  then have old: "\<forall>r \<in> set (displayed_rows w). fst r < next_node w"
    by (auto simp add: node_inv_def filter_empty_conv)
  have "set (map fst (new_rows (next_node w) ss)) \<inter> set (map fst (displayed_rows w)) = {}"
    using old new_rows_from [of "next_node w" ss] by fastforce
  moreover have "map snd (new_rows (next_node w) ss)
      = (if ss = [] then [NoServersRow] else map ServerRow ss)"
    by (simp add: new_rows_def)
  moreover have "displayed_counters ?w'
      = Some (string_of_nat (total_servers st), string_of_nat (running_servers st))"
    using assms(2,9) by (simp add: e show_dashboard_def displayed_counters_def Let_def)
  ultimately show ?thesis by (simp add: rows)
qed





end
